theory Spec2Isabelle
  imports Main
begin

section \<open>Python strings and built-ins used by \<open>download_student_images.py\<close>\<close>

text \<open>
  A Python \<open>str\<close> is modelled as a \<open>string\<close> whose characters are the code points
  below 256.  \<open>None\<close> is \<open>None\<close> of an option type; a value that the script reads with
  \<open>dict.get\<close> is therefore an option.
\<close>

datatype py_error = IndexError | ValueError | EOFError | KeyboardInterrupt | OtherError string

text \<open>
  \<open>is_space\<close> is CPython's \<open>Py_UNICODE_ISSPACE\<close> on the code points below 256: it is the
  class that \<open>str.split()\<close>, \<open>str.strip()\<close> and the pattern \<open>\s\<close> of \<open>re\<close> (on a
  \<open>str\<close> pattern) all use.
\<close>

definition is_space :: "char \<Rightarrow> bool" where
  "is_space c =
     (let n = (of_char c :: nat)
      in (9 \<le> n \<and> n \<le> 13) \<or> (28 \<le> n \<and> n \<le> 32) \<or> n = 133 \<or> n = 160)"

text \<open>The character class \<open>[a-zA-Z0-9]\<close> of the first pattern of \<open>sanitize_school_name\<close>.\<close>

definition is_ascii_alnum :: "char \<Rightarrow> bool" where
  "is_ascii_alnum c =
     (let n = (of_char c :: nat)
      in (97 \<le> n \<and> n \<le> 122) \<or> (65 \<le> n \<and> n \<le> 90) \<or> (48 \<le> n \<and> n \<le> 57))"

text \<open>\<open>x or d\<close> on an optional string: \<open>None\<close> and the empty string are falsy.\<close>

definition or_str :: "string option \<Rightarrow> string \<Rightarrow> string" where
  "or_str x d = (case x of None \<Rightarrow> d | Some s \<Rightarrow> if s = [] then d else s)"

text \<open>\<open>x or d\<close> on an optional integer: \<open>None\<close> and \<open>0\<close> are falsy.\<close>

definition or_int :: "int option \<Rightarrow> int \<Rightarrow> int" where
  "or_int x d = (case x of None \<Rightarrow> d | Some i \<Rightarrow> if i = 0 then d else i)"

text \<open>\<open>s.strip()\<close>: whitespace removed at both ends.\<close>

definition py_strip :: "string \<Rightarrow> string" where
  "py_strip s = rev (dropWhile is_space (rev (dropWhile is_space s)))"


text \<open>\<open>s.startswith(p)\<close>.\<close>

definition startswith :: "string \<Rightarrow> string \<Rightarrow> bool" where
  "startswith s p = (take (length p) s = p)"

text \<open>
  \<open>s.split()\<close>: the maximal runs of non-whitespace characters, in order; no empty
  token, so a string of whitespace only splits into the empty list.
\<close>

function split_ws :: "string \<Rightarrow> string list" where
  "split_ws s =
     (case dropWhile is_space s of
        [] \<Rightarrow> []
      | c # cs \<Rightarrow>
          (c # takeWhile (\<lambda>x. \<not> is_space x) cs) # split_ws (dropWhile (\<lambda>x. \<not> is_space x) cs))"
  by pat_completeness auto
termination
proof (relation "measure length")
  show "wf (measure length)" by simp
next
  fix s :: string and c cs
  assume d: "dropWhile is_space s = c # cs"
  have "length (dropWhile (\<lambda>x. \<not> is_space x) cs) \<le> length cs"
    by (rule length_dropWhile_le)
  moreover have "length (c # cs) \<le> length s"
    using length_dropWhile_le [of is_space s] d by simp
  ultimately show "(dropWhile (\<lambda>x. \<not> is_space x) cs, s) \<in> measure length"
    by simp
qed

declare split_ws.simps [simp del]

text \<open>\<open>re.sub(r"\s+", "_", s)\<close>: every maximal run of whitespace becomes one underscore.\<close>

function sub_ws_runs :: "string \<Rightarrow> string" where
  "sub_ws_runs [] = []"
| "sub_ws_runs (c # cs) =
     (if is_space c then CHR ''_'' # sub_ws_runs (dropWhile is_space cs)
      else c # sub_ws_runs cs)"
  by pat_completeness auto
termination
  by (relation "measure length") (auto simp: length_dropWhile_le less_Suc_eq_le)

text \<open>\<open>str(n)\<close> for an \<open>int\<close>: the decimal numeral, with a minus sign when negative.\<close>

definition digit_char :: "nat \<Rightarrow> char" where
  "digit_char d =
     (if d = 0 then CHR ''0'' else if d = 1 then CHR ''1'' else if d = 2 then CHR ''2''
      else if d = 3 then CHR ''3'' else if d = 4 then CHR ''4'' else if d = 5 then CHR ''5''
      else if d = 6 then CHR ''6'' else if d = 7 then CHR ''7'' else if d = 8 then CHR ''8''
      else CHR ''9'')"

fun str_nat :: "nat \<Rightarrow> string" where
  "str_nat n = (if n < 10 then [digit_char n] else str_nat (n div 10) @ [digit_char (n mod 10)])"

declare str_nat.simps [simp del]

definition str_int :: "int \<Rightarrow> string" where
  "str_int i = (if i < 0 then CHR ''-'' # str_nat (nat (- i)) else str_nat (nat i))"

section \<open>The naming scheme\<close>

text \<open>
  \<^verbatim>\<open>
  def sanitize_school_name(name: str) -> str:
      if not name:
          return 'unknown'
      clean = re.sub(r"[^a-zA-Z0-9\s]", "", name)
      clean = re.sub(r"\s+", "_", clean).strip()
      return clean or 'unknown'
  \<close>
  The caller passes \<open>school.get('name')\<close>, which may be \<open>None\<close>.
\<close>

definition sanitize_school_name :: "string option \<Rightarrow> string" where
  "sanitize_school_name name =
     (case name of
        None \<Rightarrow> ''unknown''
      | Some n \<Rightarrow>
          if n = [] then ''unknown''
          else
            let clean = filter (\<lambda>c. is_ascii_alnum c \<or> is_space c) n;
                clean = py_strip (sub_ws_runs clean)
            in if clean = [] then ''unknown'' else clean)"

text \<open>
  \<^verbatim>\<open>
  def student_folder_name(first_name, age, grade, section, blood_group, student_id):
      first = (first_name or 'unknown').split()[0]
      return <f-string>
  \<close>
  The f-string is the word \<open>student\<close> followed by the values of \<open>first\<close>, \<open>age\<close>,
  \<open>grade\<close>, \<open>section\<close>, \<open>blood_group\<close> and \<open>student_id\<close>, each preceded by the
  separator \<open>@\<close>.  Indexing the empty token list raises \<open>IndexError\<close>.
\<close>

definition student_folder_name ::
  "string option \<Rightarrow> int \<Rightarrow> int \<Rightarrow> string \<Rightarrow> string \<Rightarrow> string \<Rightarrow> py_error + string" where
  "student_folder_name first_name age grade sec blood_group student_id =
     (case split_ws (or_str first_name ''unknown'') of
        [] \<Rightarrow> Inl IndexError
      | first # _ \<Rightarrow>
          Inr (''student@'' @ first @ ''@'' @ str_int age @ ''@'' @ str_int grade @ ''@'' @ sec
               @ ''@'' @ blood_group @ ''@'' @ student_id))"

section \<open>The task builder\<close>

subsection \<open>Age\<close>

text \<open>
  \<^verbatim>\<open>
  dob = s.get('dob')
  age = 0
  if dob:
      try:
          age = datetime.now().year - datetime.fromisoformat(dob).year
      except Exception:
          age = 0
  \<close>
  The clock and the standard library are inputs of the model: \<open>now_year\<close> is
  \<open>datetime.now().year\<close>, and \<open>fromisoformat_year d\<close> is the year of
  \<open>datetime.fromisoformat(d)\<close>, or \<open>None\<close> when that call raises (the set of strings it
  accepts is not the same in every version of Python).
\<close>

definition student_age :: "(string \<Rightarrow> int option) \<Rightarrow> int \<Rightarrow> string option \<Rightarrow> int" where
  "student_age fromisoformat_year now_year dob_value =
     (case dob_value of
        None \<Rightarrow> 0
      | Some d \<Rightarrow>
          if d = [] then 0
          else (case fromisoformat_year d of None \<Rightarrow> 0 | Some y \<Rightarrow> now_year - y))"

text \<open>
  One parser to run the model on: the calendar form \<open>YYYY-MM-DD\<close> of a valid date
  (years 1 to 9999), which every version of \<open>fromisoformat\<close> accepts with that year.
  It stands for the library at the example of the specification and at the other
  concrete inputs below.
\<close>

definition is_digit :: "char \<Rightarrow> bool" where
  "is_digit c = (let n = (of_char c :: nat) in 48 \<le> n \<and> n \<le> 57)"

definition digit_val :: "char \<Rightarrow> nat" where
  "digit_val c = of_char c - 48"

definition digits_nat :: "string \<Rightarrow> nat" where
  "digits_nat ds = foldl (\<lambda>a c. 10 * a + digit_val c) 0 ds"

definition is_leap :: "nat \<Rightarrow> bool" where
  "is_leap y = (y mod 4 = 0 \<and> (y mod 100 \<noteq> 0 \<or> y mod 400 = 0))"

definition days_in_month :: "nat \<Rightarrow> nat \<Rightarrow> nat" where
  "days_in_month y m =
     (if m = 2 then (if is_leap y then 29 else 28)
      else if m = 4 \<or> m = 6 \<or> m = 9 \<or> m = 11 then 30 else 31)"

definition iso_date_year :: "string \<Rightarrow> int option" where
  "iso_date_year d =
     (if length d = 10 \<and> d ! 4 = CHR ''-'' \<and> d ! 7 = CHR ''-''
         \<and> list_all is_digit (take 4 d) \<and> list_all is_digit (take 2 (drop 5 d))
         \<and> list_all is_digit (drop 8 d)
      then
        let y = digits_nat (take 4 d); m = digits_nat (take 2 (drop 5 d));
            dd = digits_nat (drop 8 d)
        in if 1 \<le> y \<and> 1 \<le> m \<and> m \<le> 12 \<and> 1 \<le> dd \<and> dd \<le> days_in_month y m
           then Some (int y) else None
      else None)"

subsection \<open>File extension\<close>

text \<open>
  \<open>p.rfind(c)\<close>: the highest index of \<open>c\<close> in \<open>p\<close>, or \<open>-1\<close>.
\<close>

fun rfind :: "char \<Rightarrow> string \<Rightarrow> int" where
  "rfind c [] = - 1"
| "rfind c (x # xs) =
     (let r = rfind c xs in if 0 \<le> r then r + 1 else if x = c then 0 else - 1)"

text \<open>
  The loop of \<open>genericpath._splitext\<close> that skips the leading dots of the last path
  component:
  \<^verbatim>\<open>
  filenameIndex = sepIndex + 1
  while filenameIndex < dotIndex:
      if p[filenameIndex:filenameIndex+1] != extsep:
          return p[:dotIndex], p[dotIndex:]
      filenameIndex += 1
  return p, p[:0]
  \<close>
  \<open>has_stem p i j\<close> says whether the loop, started at \<open>filenameIndex = i\<close> with
  \<open>dotIndex = j\<close>, returns from its body.
\<close>

function has_stem :: "string \<Rightarrow> nat \<Rightarrow> nat \<Rightarrow> bool" where
  "has_stem p i j =
     (if i < j then (if take 1 (drop i p) \<noteq> ''.'' then True else has_stem p (i + 1) j)
      else False)"
  by pat_completeness auto
termination
  by (relation "measure (\<lambda>(p, i, j). j - i)") auto

declare has_stem.simps [simp del]

text \<open>
  The second component of \<open>os.path.splitext(p)\<close> (\<open>posixpath\<close>: the separator is
  \<open>/\<close>, there is no alternative separator, the extension separator is \<open>.\<close>).
\<close>

definition splitext_ext :: "string \<Rightarrow> string" where
  "splitext_ext p =
     (let sepIndex = rfind (CHR ''/'') p; dotIndex = rfind (CHR ''.'') p
      in if dotIndex > sepIndex \<and> has_stem p (nat (sepIndex + 1)) (nat dotIndex)
         then drop (nat dotIndex) p else [])"

text \<open>
  \<^verbatim>\<open>
  ext = os.path.splitext(url.split('?')[0])[1] or '.jpg'
  if len(ext) > 5:
      ext = '.jpg'
  \<close>
\<close>

definition before_query :: "string \<Rightarrow> string" where
  "before_query u = takeWhile (\<lambda>c. c \<noteq> CHR ''?'') u"

definition url_ext :: "string \<Rightarrow> string" where
  "url_ext u =
     (let e = splitext_ext (before_query u);
          ext = (if e = [] then ''.jpg'' else e)
      in if length ext > 5 then ''.jpg'' else ext)"

subsection \<open>Photos and download tasks\<close>

text \<open>
  The JSON objects of the export endpoint.  A key that is absent, or whose value is
  \<open>null\<close>, is \<open>None\<close>; the values have the types of the endpoint's contract.
\<close>

record photo =
  p_photoPath :: "string option"
  p_secure_url :: "string option"
  p_url :: "string option"
  p_photoNumber :: "int option"

record student =
  s_firstName :: "string option"
  s_dob :: "string option"
  s_grade :: "int option"
  s_section :: "string option"
  s_bloodGroup :: "string option"
  s_studentId :: "string option"
  s_id :: "string option"
  s_photos :: "photo list option"

text \<open>
  A path is the list of its components; \<open>out_root / school_name / 'Students'\<close> is a list
  of three.  A download task is the pair \<open>(url, target)\<close>.
\<close>

type_synonym path = "string list"
type_synonym task = "string \<times> path"

text \<open>\<open>a or b\<close> on optional strings: the first operand unless it is falsy.\<close>

definition or_opt :: "string option \<Rightarrow> string option \<Rightarrow> string option" where
  "or_opt a b = (case a of None \<Rightarrow> b | Some s \<Rightarrow> if s = [] then b else a)"

text \<open>\<open>str(x)\<close> on an optional string: \<open>str(None)\<close> is the text \<open>None\<close>.\<close>

definition str_opt :: "string option \<Rightarrow> string" where
  "str_opt x = (case x of None \<Rightarrow> ''None'' | Some s \<Rightarrow> s)"

text \<open>\<open>url = p.get('photoPath') or p.get('secure_url') or p.get('url')\<close>\<close>

definition photo_url :: "photo \<Rightarrow> string option" where
  "photo_url p = or_opt (or_opt (p_photoPath p) (p_secure_url p)) (p_url p)"

text \<open>
  \<^verbatim>\<open>
  num = p.get('photoNumber')
  ...
  filename = f"{num if num is not None else int(threading.get_ident())}{ext}"
  \<close>
  \<open>thread_ident\<close> is the value of \<open>threading.get_ident()\<close> in the thread that builds the
  tasks.
\<close>

definition photo_filename :: "int \<Rightarrow> photo \<Rightarrow> string \<Rightarrow> string" where
  "photo_filename thread_ident p u =
     str_int (case p_photoNumber p of Some num \<Rightarrow> num | None \<Rightarrow> thread_ident) @ url_ext u"

text \<open>
  The loop over the photos of one student:
  \<^verbatim>\<open>
  for p in photos:
      url = p.get('photoPath') or p.get('secure_url') or p.get('url')
      if not url or not url.startswith('http'):  # skip non-http
          continue
      ...
      target = student_folder / filename
      tasks.append((url, target))
  \<close>
\<close>

fun photo_tasks :: "int \<Rightarrow> path \<Rightarrow> photo list \<Rightarrow> task list" where
  "photo_tasks thread_ident student_folder [] = []"
| "photo_tasks thread_ident student_folder (p # ps) =
     (case photo_url p of
        None \<Rightarrow> photo_tasks thread_ident student_folder ps
      | Some u \<Rightarrow>
          if u = [] \<or> \<not> startswith u ''http''
          then photo_tasks thread_ident student_folder ps
          else (u, student_folder @ [photo_filename thread_ident p u])
                 # photo_tasks thread_ident student_folder ps)"

text \<open>
  The folder name of one student (lines 170 to 185 of the script): the first name, or
  \<open>unknown\<close>; the age; the grade, or 0; the section, or \<open>A\<close>; the blood group, or
  \<open>NA\<close>; the student id, or \<open>str\<close> of the generic id.
\<close>

definition student_folder_of ::
  "(string \<Rightarrow> int option) \<Rightarrow> int \<Rightarrow> student \<Rightarrow> py_error + string" where
  "student_folder_of fromisoformat_year now_year s =
     (let first = or_str (s_firstName s) ''unknown'';
          age = student_age fromisoformat_year now_year (s_dob s);
          grade_value = or_int (s_grade s) 0;
          sec = or_str (s_section s) ''A'';
          blood = or_str (s_bloodGroup s) ''NA'';
          student_id = or_str (s_studentId s) (str_opt (s_id s))
      in student_folder_name (Some first) age grade_value sec blood student_id)"

text \<open>
  The loop over the students.  Events are the effects on the file system and the
  terminal, in the order in which the script performs them.
\<close>

datatype message =
    ErrorFetchingSchools py_error
  | FailedToListSchools
  | NoActiveSchools
  | SelectASchool
  | SchoolLine nat "string option" "string option"
  | InvalidChoice
  | FailedToReadPassword
  | ErrorExportingStudents py_error
  | FailedToExportStudents
  | FetchedStudents nat
  | NoDownloadableImages
  | FailedToDownload string string
  | Saved path
  | Completed nat nat string

datatype event = Print message | Mkdir path | WriteFile path string

text \<open>
  \<open>build_tasks\<close> returns the events so far and either the exception that ended the loop
  or the task list.
\<close>

fun build_tasks ::
  "(string \<Rightarrow> int option) \<Rightarrow> int \<Rightarrow> int \<Rightarrow> path \<Rightarrow> student list
     \<Rightarrow> (py_error + task list) \<times> event list" where
  "build_tasks fromisoformat_year now_year thread_ident base_school_folder [] = (Inr [], [])"
| "build_tasks fromisoformat_year now_year thread_ident base_school_folder (s # ss) =
     (case student_folder_of fromisoformat_year now_year s of
        Inl e \<Rightarrow> (Inl e, [])
      | Inr folder_name \<Rightarrow>
          let student_folder = base_school_folder @ [folder_name];
              mine = photo_tasks thread_ident student_folder
                       (case s_photos s of None \<Rightarrow> [] | Some ps \<Rightarrow> ps)
          in (case build_tasks fromisoformat_year now_year thread_ident base_school_folder ss of
                (Inl e, ev) \<Rightarrow> (Inl e, Mkdir student_folder # ev)
              | (Inr later, ev) \<Rightarrow> (Inr (mine @ later), Mkdir student_folder # ev)))"

section \<open>The download pool\<close>

text \<open>
  The world outside the script is a record of what each call into it answers: the two
  endpoints, the prompts, the clock, the thread identifier, the downloads and the order
  in which the pool's futures complete.
  \<^item> An endpoint answers with the exception that \<open>get\<close>, \<open>post\<close>, \<open>raise_for_status\<close> or
    \<open>json\<close> raised, or with the parsed body: \<open>r_success\<close> is the truth value of
    \<open>data.get('success')\<close> and \<open>r_data\<close> is \<open>data.get('data') or []\<close>.
  \<^item> A prompt answers with the line read, or with the exception raised.
  \<^item> A download answers with the text of the exception raised by \<open>SESSION.get\<close> or
    \<open>raise_for_status\<close>, or with the content; writing the file answers with the text of
    the exception raised by \<open>open\<close> or \<open>write\<close>, if any.  An exception in a worker
    thread is of class \<open>Exception\<close>: an interrupt is delivered to the main thread only.
  \<^item> \<open>w_completion_time w i\<close> is when the future of task \<open>i\<close> completes;
    \<open>as_completed\<close> hands the futures out in that order.
\<close>

record school =
  sc_name :: "string option"
  sc_schoolId :: "string option"
  sc_id :: "string option"

record 'a response =
  r_success :: bool
  r_data :: "'a list"

record args =
  a_base_url :: string
  a_out :: string
  a_workers :: int
  a_username :: "string option"
  a_password :: "string option"

record world =
  w_get_schools :: "string \<Rightarrow> py_error + school response"
  w_post_students :: "string \<Rightarrow> string \<Rightarrow> string \<Rightarrow> py_error + student response"
  w_input_choice :: "py_error + string"
  w_input_username :: "py_error + string"
  w_stdin_is_tty :: bool
  w_input_password :: "py_error + string"
  w_getpass :: "py_error + string"
  w_input_fallback :: "py_error + string"
  w_fromisoformat_year :: "string \<Rightarrow> int option"
  w_now_year :: int
  w_thread_ident :: int
  w_http_get :: "string \<Rightarrow> string + string"
  w_write_file :: "path \<Rightarrow> string \<Rightarrow> string option"
  w_completion_time :: "nat \<Rightarrow> nat"

text \<open>
  \<^verbatim>\<open>
  def download_url(url: str, target: Path, timeout: int = 30) -> bool:
      try:
          resp = SESSION.get(url, timeout=timeout)
          resp.raise_for_status()
          with open(target, 'wb') as f:
              f.write(resp.content)
          return True
      except Exception as e:
          print(f"Failed to download {url}: {e}")
          return False
  \<close>
\<close>

definition download_url :: "world \<Rightarrow> task \<Rightarrow> bool \<times> event list" where
  "download_url w t =
     (case t of (u, target) \<Rightarrow>
        (case w_http_get w u of
           Inl e \<Rightarrow> (False, [Print (FailedToDownload u e)])
         | Inr content \<Rightarrow>
             (case w_write_file w target content of
                Some e \<Rightarrow> (False, [Print (FailedToDownload u e)])
              | None \<Rightarrow> (True, [WriteFile target content]))))"

text \<open>
  The loop over the completed futures:
  \<^verbatim>\<open>
  for fut in as_completed(futures):
      url, target = futures[fut]
      ok = fut.result()
      if ok:
          print(f"Saved: {target}")
          success_count += 1
  \<close>
  The events of a download are placed where its future is taken out.
\<close>

fun completed_loop :: "world \<Rightarrow> task list \<Rightarrow> nat \<Rightarrow> event list \<Rightarrow> nat \<times> event list" where
  "completed_loop w [] success_count ev = (success_count, ev)"
| "completed_loop w (t # futs) success_count ev =
     (case download_url w t of
        (ok, dl) \<Rightarrow>
          if ok then completed_loop w futs (success_count + 1) (ev @ dl @ [Print (Saved (snd t))])
          else completed_loop w futs success_count (ev @ dl))"

text \<open>The tasks in the order in which their futures complete.\<close>

definition as_completed :: "world \<Rightarrow> task list \<Rightarrow> task list" where
  "as_completed w tasks = map (\<lambda>i. tasks ! i) (sort_key (w_completion_time w) [0..<length tasks])"

datatype outcome = Finished | Exited nat | Uncaught py_error

text \<open>
  Lines 207 to 220.  \<open>ThreadPoolExecutor(max_workers=n)\<close> raises \<open>ValueError\<close> unless
  \<open>n\<close> is positive.
\<close>

definition run_downloads :: "args \<Rightarrow> world \<Rightarrow> task list \<Rightarrow> outcome \<times> event list" where
  "run_downloads a w tasks =
     (if a_workers a \<le> 0 then (Uncaught ValueError, [])
      else
        (case completed_loop w (as_completed w tasks) 0 [] of
           (success_count, ev) \<Rightarrow>
             (Finished, ev @ [Print (Completed success_count (length tasks) (a_out a))])))"


section \<open>The driver\<close>
















section \<open>Properties of the string functions\<close>

lemma split_ws_all_space:
  assumes "\<forall>c\<in>set s. is_space c"
  shows "split_ws s = []"
proof -
  have d: "dropWhile is_space s = []" using assms by simp
  show ?thesis by (subst split_ws.simps) (simp only: d list.case)
qed

lemma split_ws_first_token:
  assumes ws: "\<forall>c\<in>set ws. is_space c"
    and tok: "tok \<noteq> []" "\<forall>c\<in>set tok. \<not> is_space c"
    and rest: "rest = [] \<or> is_space (hd rest)"
  shows "\<exists>more. split_ws (ws @ tok @ rest) = tok # more"
proof -
  obtain c cs where t: "tok = c # cs" using tok(1) by (cases tok) auto
  have nc: "\<not> is_space c" and ncs: "\<forall>x\<in>set cs. \<not> is_space x"
    using tok(2) t by auto
  have d: "dropWhile is_space (ws @ (c # cs) @ rest) = c # (cs @ rest)"
    using ws nc by (simp add: dropWhile_append3)
  have tk: "takeWhile (\<lambda>x. \<not> is_space x) (cs @ rest) = cs"
  proof (cases rest)
    case Nil
    then show ?thesis using ncs by simp
  next
    case (Cons r rs)
    then have "is_space r" using rest by simp
    then show ?thesis using ncs Cons by (simp add: takeWhile_tail)
  qed
  have "split_ws (ws @ (c # cs) @ rest)
      = (c # cs) # split_ws (dropWhile (\<lambda>x. \<not> is_space x) (cs @ rest))"
    by (subst split_ws.simps) (simp only: d list.case tk)
  then show ?thesis unfolding t by blast
qed

lemma split_ws_unknown: "split_ws ''unknown'' = [''unknown'']"
  by code_simp

lemma sub_ws_runs_chars:
  "list_all (\<lambda>c. is_ascii_alnum c \<or> is_space c) s
   \<Longrightarrow> list_all (\<lambda>c. is_ascii_alnum c \<or> c = CHR ''_'') (sub_ws_runs s)"
proof (induction s rule: sub_ws_runs.induct)
  case 1
  show ?case by simp
next
  case (2 c cs)
  have d: "list_all (\<lambda>c. is_ascii_alnum c \<or> is_space c) (dropWhile is_space cs)"
    using 2(3) by (auto simp: list_all_iff dest: set_dropWhileD)
  show ?case
  proof (cases "is_space c")
    case True
    then show ?thesis using 2(1) d by simp
  next
    case False
    then show ?thesis using 2(2,3) by simp
  qed
qed

lemma py_strip_chars: "list_all P s \<Longrightarrow> list_all P (py_strip s)"
  by (auto simp: py_strip_def list_all_iff dest!: set_dropWhileD)

section \<open>Claims about the naming scheme\<close>

text \<open>
  C2 (defect of the code).  The claim says that a whitespace-only school name is
  sanitised to \<open>unknown\<close>.  The script replaces every run of whitespace by an underscore
  before it calls \<open>strip()\<close>, so nothing is left to trim: three blanks become a single
  underscore, which is not empty, and the fallback is not taken.
\<close>

theorem sanitize_school_name_blank: "sanitize_school_name (Some ''   '') = ''_''"
  by code_simp

text \<open>
  C9.  \<open>student_folder_name\<close> keeps the first whitespace-delimited token of the first name:
  when the name (or \<open>unknown\<close>, for an empty or missing name) is some whitespace, then a
  non-empty token free of whitespace, then nothing or more text that starts with
  whitespace, the result is the seven fields joined by \<open>@\<close>.  The example of the
  specification, \<open>Jane Doe\<close>, gives \<open>student@Jane@10@5@B@O+@S123\<close>.
\<close>

theorem student_folder_name_format:
  "((\<forall>c\<in>set ws. is_space c) \<and> tok \<noteq> [] \<and> (\<forall>c\<in>set tok. \<not> is_space c)
      \<and> (rest = [] \<or> is_space (hd rest)) \<and> or_str first_name ''unknown'' = ws @ tok @ rest
    \<longrightarrow> student_folder_name first_name age grade sec blood_group student_id
        = Inr (''student@'' @ tok @ ''@'' @ str_int age @ ''@'' @ str_int grade @ ''@'' @ sec
               @ ''@'' @ blood_group @ ''@'' @ student_id))
   \<and> (first_name = None \<or> first_name = Some []
    \<longrightarrow> student_folder_name first_name age grade sec blood_group student_id
        = Inr (''student@unknown@'' @ str_int age @ ''@'' @ str_int grade @ ''@'' @ sec
               @ ''@'' @ blood_group @ ''@'' @ student_id))
   \<and> student_folder_name (Some ''Jane Doe'') 10 5 ''B'' ''O+'' ''S123''
        = Inr ''student@Jane@10@5@B@O+@S123''"
proof (intro conjI impI)
  assume a: "(\<forall>c\<in>set ws. is_space c) \<and> tok \<noteq> [] \<and> (\<forall>c\<in>set tok. \<not> is_space c)
      \<and> (rest = [] \<or> is_space (hd rest)) \<and> or_str first_name ''unknown'' = ws @ tok @ rest"
  then obtain more where "split_ws (or_str first_name ''unknown'') = tok # more"
    using split_ws_first_token [of ws tok rest] by auto
  then show "student_folder_name first_name age grade sec blood_group student_id
        = Inr (''student@'' @ tok @ ''@'' @ str_int age @ ''@'' @ str_int grade @ ''@'' @ sec
               @ ''@'' @ blood_group @ ''@'' @ student_id)"
    by (simp add: student_folder_name_def)
next
  assume "first_name = None \<or> first_name = Some []"
  then have "or_str first_name ''unknown'' = ''unknown''"
    by (auto simp: or_str_def)
  then show "student_folder_name first_name age grade sec blood_group student_id
        = Inr (''student@unknown@'' @ str_int age @ ''@'' @ str_int grade @ ''@'' @ sec
               @ ''@'' @ blood_group @ ''@'' @ student_id)"
    by (simp add: student_folder_name_def split_ws_unknown)
next
  show "student_folder_name (Some ''Jane Doe'') 10 5 ''B'' ''O+'' ''S123''
        = Inr ''student@Jane@10@5@B@O+@S123''"
    by code_simp
qed

theorem student_folder_name_format_witness:
  "student_folder_name (Some ''  Mary Ann'') 9 4 ''C'' ''AB-'' ''S7''
     = Inr ''student@Mary@9@4@C@AB-@S7''
   \<and> student_folder_name None 9 4 ''C'' ''AB-'' ''S7'' = Inr ''student@unknown@9@4@C@AB-@S7''"
proof -
  have s: "str_int 9 = ''9''" "str_int 4 = ''4''" by code_simp+
  have h: "(\<forall>c\<in>set ''  ''. is_space c) \<and> ''Mary'' \<noteq> [] \<and> (\<forall>c\<in>set ''Mary''. \<not> is_space c)
      \<and> ('' Ann'' = [] \<or> is_space (hd '' Ann''))
      \<and> or_str (Some ''  Mary Ann'') ''unknown'' = ''  '' @ ''Mary'' @ '' Ann''"
    by (simp add: is_space_def or_str_def)
  show ?thesis
    using student_folder_name_format
      [of "''  ''" "''Mary''" "'' Ann''" "Some ''  Mary Ann''" 9 4 "''C''" "''AB-''" "''S7''"]
      student_folder_name_format
      [of "[]" "''unknown''" "[]" None 9 4 "''C''" "''AB-''" "''S7''"]
      h s
    by simp
qed

text \<open>
  C10.  \<open>student_folder_name\<close> is not total: a first name that is not empty and holds
  whitespace only has no token, and indexing the empty token list raises
  \<open>IndexError\<close>; an empty or missing first name gives a folder name that starts with
  \<open>student@unknown@\<close>.
\<close>

theorem student_folder_name_not_total:
  "(s \<noteq> [] \<and> (\<forall>c\<in>set s. is_space c)
    \<longrightarrow> student_folder_name (Some s) age grade sec blood_group student_id = Inl IndexError)
   \<and> (first_name = None \<or> first_name = Some []
    \<longrightarrow> (\<exists>rest. student_folder_name first_name age grade sec blood_group student_id
          = Inr (''student@unknown@'' @ rest)))"
proof (intro conjI impI)
  assume a: "s \<noteq> [] \<and> (\<forall>c\<in>set s. is_space c)"
  then have "or_str (Some s) ''unknown'' = s" by (simp add: or_str_def)
  moreover have "split_ws s = []" using a split_ws_all_space by blast
  ultimately show "student_folder_name (Some s) age grade sec blood_group student_id
      = Inl IndexError"
    by (simp add: student_folder_name_def)
next
  assume "first_name = None \<or> first_name = Some []"
  then have "or_str first_name ''unknown'' = ''unknown''"
    by (auto simp: or_str_def)
  then show "\<exists>rest. student_folder_name first_name age grade sec blood_group student_id
      = Inr (''student@unknown@'' @ rest)"
    by (simp add: student_folder_name_def split_ws_unknown)
qed

theorem student_folder_name_not_total_witness:
  "student_folder_name (Some '' '') 9 4 ''C'' ''AB-'' ''S7'' = Inl IndexError
   \<and> (\<exists>rest. student_folder_name (Some []) 9 4 ''C'' ''AB-'' ''S7''
         = Inr (''student@unknown@'' @ rest))"
proof -
  have h: "'' '' \<noteq> [] \<and> (\<forall>c\<in>set '' ''. is_space c)"
    by (simp add: is_space_def)
  show ?thesis
    using student_folder_name_not_total
      [of "'' ''" 9 4 "''C''" "''AB-''" "''S7''" "Some []"] h
    by simp
qed

section \<open>Properties of the extension functions\<close>










lemma iso_date_year_example: "iso_date_year ''2015-06-01'' = Some 2015"
  by code_simp

section \<open>Claims about the age\<close>

text \<open>
  C3 (as stated, refuted).  The claim gives 14 as the age of a student born on
  \<open>2015-06-01\<close> when the current year is 2024.  The script subtracts the years, and
  2024 minus 2015 is not 14.
\<close>

theorem age_example_is_not_14:
  "student_age iso_date_year 2024 (Some ''2015-06-01'') \<noteq> 14"
  by code_simp

text \<open>
  C3 (amended).  For a student record whose date of birth is \<open>2015-06-01\<close>, the age
  computed by the task builder when the current year is 2024 equals 9, for every
  \<open>fromisoformat\<close> that reads the year 2015 from that string.
\<close>

theorem age_example_is_9:
  "fromisoformat_year ''2015-06-01'' = Some 2015
   \<Longrightarrow> student_age fromisoformat_year 2024 (Some ''2015-06-01'') = 9"
  by (simp add: student_age_def)

theorem age_example_is_9_witness:
  "iso_date_year ''2015-06-01'' = Some 2015
   \<and> student_age iso_date_year 2024 (Some ''2015-06-01'') = 9"
  using age_example_is_9 [of iso_date_year] iso_date_year_example by simp

text \<open>
  C4.  When the date of birth is present (not empty) and \<open>fromisoformat\<close> parses it,
  the age is the current year minus the year of birth; when it is absent, empty or not
  parsed, the age is 0.  An empty string is falsy, so the script does not try to parse
  it.
\<close>

theorem age_derivation:
  "(dob_value = Some d \<and> d \<noteq> [] \<and> fromisoformat_year d = Some y
      \<longrightarrow> student_age fromisoformat_year now_year dob_value = now_year - y)
   \<and> (dob_value = None \<or> dob_value = Some [] \<or> (dob_value = Some d \<and> fromisoformat_year d = None)
      \<longrightarrow> student_age fromisoformat_year now_year dob_value = 0)"
  by (auto simp: student_age_def)

theorem age_derivation_witness:
  "student_age iso_date_year 2026 (Some ''2016-02-29'') = 2026 - 2016
   \<and> student_age iso_date_year 2026 (Some ''2015-02-29'') = 0
   \<and> student_age iso_date_year 2026 None = 0"
proof -
  have a: "iso_date_year ''2016-02-29'' = Some 2016" by code_simp
  have b: "iso_date_year ''2015-02-29'' = None" by code_simp
  show ?thesis
    using age_derivation [of "Some ''2016-02-29''" "''2016-02-29''" iso_date_year 2016 2026]
      age_derivation [of "Some ''2015-02-29''" "''2015-02-29''" iso_date_year 0 2026]
      age_derivation [of None "[]" iso_date_year 0 2026] a b
    by simp
qed

section \<open>Claims about the file extension\<close>



section \<open>Properties of the task builder\<close>

lemma startswith_http_nonempty: "startswith u ''http'' \<Longrightarrow> u \<noteq> []"
  by (auto simp: startswith_def)

lemma photo_url_first:
  "photo_url p =
     (if p_photoPath p \<noteq> None \<and> p_photoPath p \<noteq> Some [] then p_photoPath p
      else if p_secure_url p \<noteq> None \<and> p_secure_url p \<noteq> Some [] then p_secure_url p
      else p_url p)"
  by (auto simp: photo_url_def or_opt_def split: option.splits)

lemma photo_tasks_filter:
  "photo_tasks thread_ident folder ps =
     map (\<lambda>p. (the (photo_url p), folder @ [photo_filename thread_ident p (the (photo_url p))]))
       (filter (\<lambda>p. \<exists>u. photo_url p = Some u \<and> startswith u ''http'') ps)"
proof (induction ps)
  case Nil
  show ?case by simp
next
  case (Cons p ps)
  show ?case
  proof (cases "photo_url p")
    case None
    then show ?thesis using Cons by simp
  next
    case (Some u)
    then show ?thesis using Cons startswith_http_nonempty [of u] by auto
  qed
qed

lemma build_tasks_concat:
  "fst (build_tasks parse y thread_ident base students) = Inr tasks
   \<Longrightarrow> tasks = concat (map (\<lambda>s. photo_tasks thread_ident
                        (base @ [projr (student_folder_of parse y s)])
                        (case s_photos s of None \<Rightarrow> [] | Some ps \<Rightarrow> ps)) students)"
proof (induction students arbitrary: tasks)
  case Nil
  then show ?case by simp
next
  case (Cons s ss)
  then show ?case
    by (auto simp: Let_def split: sum.splits prod.splits)
qed

lemma photo_tasks_numbered:
  "\<forall>p\<in>set ps. p_photoNumber p \<noteq> None
   \<Longrightarrow> photo_tasks t1 folder ps = photo_tasks t2 folder ps"
  by (induction ps) (auto simp: photo_filename_def split: option.splits)

lemma build_tasks_numbered:
  "\<forall>s\<in>set students. \<forall>p\<in>set (case s_photos s of None \<Rightarrow> [] | Some ps \<Rightarrow> ps).
      p_photoNumber p \<noteq> None
   \<Longrightarrow> build_tasks parse y t1 base students = build_tasks parse y t2 base students"
proof (induction students)
  case Nil
  show ?case by simp
next
  case (Cons s ss)
  have p: "\<And>f. photo_tasks t1 f (case s_photos s of None \<Rightarrow> [] | Some ps \<Rightarrow> ps)
      = photo_tasks t2 f (case s_photos s of None \<Rightarrow> [] | Some ps \<Rightarrow> ps)"
    using Cons.prems by (intro photo_tasks_numbered) simp
  have r: "build_tasks parse y t1 base ss = build_tasks parse y t2 base ss"
    using Cons by simp
  show ?case by (simp add: p r Let_def split: sum.splits)
qed

lemma student_folder_no_dob:
  "s_dob s = None \<or> s_dob s = Some []
   \<Longrightarrow> student_folder_of parse y1 s = student_folder_of parse y2 s"
  by (auto simp: student_folder_of_def student_age_def)

section \<open>Properties of the pool and the driver\<close>

lemma completed_loop_count:
  "fst (completed_loop w futs n ev) = n + length (filter (\<lambda>t. fst (download_url w t)) futs)"
  by (induction futs arbitrary: n ev) (auto split: prod.splits)

lemma completed_loop_events:
  "set (snd (completed_loop w futs n ev)) =
     set ev \<union> (\<Union>t\<in>set futs. set (snd (download_url w t))
                   \<union> (if fst (download_url w t) then {Print (Saved (snd t))} else {}))"
  by (induction futs arbitrary: n ev) (auto split: prod.splits)

lemma as_completed_set: "set (as_completed w tasks) = set tasks"
proof -
  have "set (as_completed w tasks) = (\<lambda>i. tasks ! i) ` {0..<length tasks}"
    by (simp add: as_completed_def)
  also have "\<dots> = set tasks"
    by (auto simp: set_conv_nth)
  finally show ?thesis .
qed

lemma as_completed_count:
  "length (filter P (as_completed w tasks)) = length (filter P tasks)"
proof -
  let ?f = "\<lambda>i. tasks ! i"
  have "length (filter P (as_completed w tasks))
      = length (filter (P \<circ> ?f) (sort_key (w_completion_time w) [0..<length tasks]))"
    by (simp add: as_completed_def filter_map)
  also have "\<dots> = length (filter (P \<circ> ?f) [0..<length tasks])"
    by (simp add: filter_sort)
  also have "\<dots> = length (filter P (map ?f [0..<length tasks]))"
    by (simp add: filter_map)
  also have "\<dots> = length (filter P tasks)"
    by (simp add: map_nth)
  finally show ?thesis .
qed

lemma run_downloads_result:
  assumes "0 < a_workers a"
  shows "run_downloads a w tasks =
     (Finished, snd (completed_loop w (as_completed w tasks) 0 [])
        @ [Print (Completed (length (filter (\<lambda>t. fst (download_url w t)) tasks))
                   (length tasks) (a_out a))])"
proof -
  have "fst (completed_loop w (as_completed w tasks) 0 [])
      = length (filter (\<lambda>t. fst (download_url w t)) tasks)"
    by (simp add: completed_loop_count as_completed_count)
  then show ?thesis
    using assms by (auto simp: run_downloads_def split: prod.splits)
qed













lemma run_downloads_writes:
  assumes "WriteFile target content \<in> set (snd (run_downloads a w tasks))"
  shows "\<exists>u. (u, target) \<in> set tasks"
proof -
  have pos: "0 < a_workers a"
    using assms by (auto simp: run_downloads_def split: if_splits)
  then have "WriteFile target content
      \<in> set (snd (completed_loop w (as_completed w tasks) 0 []))"
    using assms by (simp add: run_downloads_result)
  then obtain t where t: "t \<in> set tasks"
    and e: "WriteFile target content \<in> set (snd (download_url w t))"
    by (auto simp: completed_loop_events as_completed_set split: if_splits)
  have "snd t = target"
    using e by (cases t) (auto simp: download_url_def split: sum.splits option.splits)
  then show ?thesis using t by (cases t) auto
qed

section \<open>Claims about the task builder\<close>

text \<open>
  C5 (as stated, refuted).  The claim makes a photo eligible when one of its fields
  \<open>photoPath\<close>, \<open>secure_url\<close>, \<open>url\<close> holds a value that starts with \<open>http\<close>.  The
  script looks at one value only, the first of the three that is not empty: a photo
  whose \<open>photoPath\<close> is a local path and whose \<open>secure_url\<close> is an HTTP URL gets no
  task.
\<close>

theorem eligibility_by_any_field_counterexample:
  "p_secure_url \<lparr>p_photoPath = Some ''uploads/a.jpg'', p_secure_url = Some ''https://cdn/a.jpg'',
       p_url = None, p_photoNumber = Some 1\<rparr> = Some ''https://cdn/a.jpg''
   \<and> startswith ''https://cdn/a.jpg'' ''http''
   \<and> photo_tasks 1 [''downloads'', ''S'', ''Students'', ''f'']
        [\<lparr>p_photoPath = Some ''uploads/a.jpg'', p_secure_url = Some ''https://cdn/a.jpg'',
          p_url = None, p_photoNumber = Some 1\<rparr>] = []"
  by (simp add: startswith_def photo_url_def or_opt_def)

text \<open>
  C5 (amended).  The URL of a photo is the first of \<open>photoPath\<close>, \<open>secure_url\<close> and
  \<open>url\<close> that is present and not empty (the last one when none is).  The task builder
  creates a download task for a photo if and only if that URL starts with \<open>http\<close>:
  the tasks of a student are, in order, one task per such photo, from that URL to the
  file name inside the student's folder, and no task for any other photo; the tasks of
  a run that builds its task list are those of its students, in order.  The pool
  writes a file only at the target of a task, so a photo without a task gives no file.
\<close>

theorem eligibility:
  "photo_url p =
     (if p_photoPath p \<noteq> None \<and> p_photoPath p \<noteq> Some [] then p_photoPath p
      else if p_secure_url p \<noteq> None \<and> p_secure_url p \<noteq> Some [] then p_secure_url p
      else p_url p)
   \<and> photo_tasks thread_ident folder ps =
       map (\<lambda>p. (the (photo_url p), folder @ [photo_filename thread_ident p (the (photo_url p))]))
         (filter (\<lambda>p. \<exists>u. photo_url p = Some u \<and> startswith u ''http'') ps)
   \<and> length (photo_tasks thread_ident folder ps) =
       length (filter (\<lambda>p. \<exists>u. photo_url p = Some u \<and> startswith u ''http'') ps)
   \<and> (fst (build_tasks parse y thread_ident base students) = Inr tasks
      \<longrightarrow> tasks = concat (map (\<lambda>s. photo_tasks thread_ident
                        (base @ [projr (student_folder_of parse y s)])
                        (case s_photos s of None \<Rightarrow> [] | Some ps \<Rightarrow> ps)) students))
   \<and> (WriteFile target content \<in> set (snd (run_downloads a w tasks))
      \<longrightarrow> (\<exists>u. (u, target) \<in> set tasks))"
proof (intro conjI impI)
  show "photo_url p =
     (if p_photoPath p \<noteq> None \<and> p_photoPath p \<noteq> Some [] then p_photoPath p
      else if p_secure_url p \<noteq> None \<and> p_secure_url p \<noteq> Some [] then p_secure_url p
      else p_url p)"
    by (rule photo_url_first)
next
  show "photo_tasks thread_ident folder ps =
       map (\<lambda>p. (the (photo_url p), folder @ [photo_filename thread_ident p (the (photo_url p))]))
         (filter (\<lambda>p. \<exists>u. photo_url p = Some u \<and> startswith u ''http'') ps)"
    by (rule photo_tasks_filter)
next
  show "length (photo_tasks thread_ident folder ps) =
       length (filter (\<lambda>p. \<exists>u. photo_url p = Some u \<and> startswith u ''http'') ps)"
    by (simp add: photo_tasks_filter)
next
  assume "fst (build_tasks parse y thread_ident base students) = Inr tasks"
  then show "tasks = concat (map (\<lambda>s. photo_tasks thread_ident
                        (base @ [projr (student_folder_of parse y s)])
                        (case s_photos s of None \<Rightarrow> [] | Some ps \<Rightarrow> ps)) students)"
    by (rule build_tasks_concat)
next
  assume "WriteFile target content \<in> set (snd (run_downloads a w tasks))"
  then show "\<exists>u. (u, target) \<in> set tasks"
    by (rule run_downloads_writes)
qed

theorem eligibility_witness:
  "fst (build_tasks iso_date_year 2024 77 [''downloads'', ''S'', ''Students'']
      [\<lparr>s_firstName = Some ''Jane Doe'', s_dob = Some ''2015-06-01'', s_grade = Some 5,
         s_section = Some ''B'', s_bloodGroup = Some ''O+'', s_studentId = Some ''S123'',
         s_id = None,
         s_photos = Some
           [\<lparr>p_photoPath = Some ''uploads/a.jpg'', p_secure_url = Some ''https://cdn/a.jpg'',
              p_url = None, p_photoNumber = Some 1\<rparr>,
            \<lparr>p_photoPath = None, p_secure_url = Some ''https://cdn/b.png'',
              p_url = None, p_photoNumber = Some 2\<rparr>]\<rparr>])
     = Inr [(''https://cdn/b.png'',
             [''downloads'', ''S'', ''Students'', ''student@Jane@9@5@B@O+@S123'', ''2.png''])]
   \<and> [(''https://cdn/b.png'',
        [''downloads'', ''S'', ''Students'', ''student@Jane@9@5@B@O+@S123'', ''2.png''])]
     = concat (map (\<lambda>s. photo_tasks 77
                  ([''downloads'', ''S'', ''Students'']
                     @ [projr (student_folder_of iso_date_year 2024 s)])
                  (case s_photos s of None \<Rightarrow> [] | Some ps \<Rightarrow> ps))
         [\<lparr>s_firstName = Some ''Jane Doe'', s_dob = Some ''2015-06-01'', s_grade = Some 5,
            s_section = Some ''B'', s_bloodGroup = Some ''O+'', s_studentId = Some ''S123'',
            s_id = None,
            s_photos = Some
              [\<lparr>p_photoPath = Some ''uploads/a.jpg'', p_secure_url = Some ''https://cdn/a.jpg'',
                 p_url = None, p_photoNumber = Some 1\<rparr>,
               \<lparr>p_photoPath = None, p_secure_url = Some ''https://cdn/b.png'',
                 p_url = None, p_photoNumber = Some 2\<rparr>]\<rparr>])"
proof -
  have h: "fst (build_tasks iso_date_year 2024 77 [''downloads'', ''S'', ''Students'']
      [\<lparr>s_firstName = Some ''Jane Doe'', s_dob = Some ''2015-06-01'', s_grade = Some 5,
         s_section = Some ''B'', s_bloodGroup = Some ''O+'', s_studentId = Some ''S123'',
         s_id = None,
         s_photos = Some
           [\<lparr>p_photoPath = Some ''uploads/a.jpg'', p_secure_url = Some ''https://cdn/a.jpg'',
              p_url = None, p_photoNumber = Some 1\<rparr>,
            \<lparr>p_photoPath = None, p_secure_url = Some ''https://cdn/b.png'',
              p_url = None, p_photoNumber = Some 2\<rparr>]\<rparr>])
     = Inr [(''https://cdn/b.png'',
             [''downloads'', ''S'', ''Students'', ''student@Jane@9@5@B@O+@S123'', ''2.png''])]"
    by code_simp
  show ?thesis
    using eligibility [THEN conjunct2, THEN conjunct2, THEN conjunct2, THEN conjunct1,
        rule_format, OF h] h
    by blast
qed

text \<open>
  C1 (as stated, refuted).  Two runs on the same data do not always produce the same
  names.  The file name of a photo with no \<open>photoNumber\<close> is the identifier of the
  thread that builds the tasks, so it differs when the identifier differs; the folder
  name holds the age, so it differs when the current year differs.
\<close>

theorem names_depend_on_thread_and_year:
  "photo_tasks 1 [''downloads'', ''S'', ''Students'', ''f'']
      [\<lparr>p_photoPath = None, p_secure_url = None, p_url = Some ''http://h/a.png'',
         p_photoNumber = None\<rparr>]
     \<noteq> photo_tasks 2 [''downloads'', ''S'', ''Students'', ''f'']
      [\<lparr>p_photoPath = None, p_secure_url = None, p_url = Some ''http://h/a.png'',
         p_photoNumber = None\<rparr>]
   \<and> student_folder_of iso_date_year 2024
      \<lparr>s_firstName = Some ''Jane Doe'', s_dob = Some ''2015-06-01'', s_grade = Some 5,
         s_section = Some ''B'', s_bloodGroup = Some ''O+'', s_studentId = Some ''S123'',
         s_id = None, s_photos = None\<rparr>
     \<noteq> student_folder_of iso_date_year 2025
      \<lparr>s_firstName = Some ''Jane Doe'', s_dob = Some ''2015-06-01'', s_grade = Some 5,
         s_section = Some ''B'', s_bloodGroup = Some ''O+'', s_studentId = Some ''S123'',
         s_id = None, s_photos = None\<rparr>"
  by code_simp

text \<open>
  C1 (amended).  The folder name of a student is a function of the student's attributes
  and the current year (through the age), and of the attributes alone when the student
  has no date of birth.  The file name of a photo with a \<open>photoNumber\<close> is a function
  of that number and the URL alone; the file name of a photo with no \<open>photoNumber\<close> is
  the identifier of the building thread followed by the extension.  So two runs in the
  same year on students whose photos all have a \<open>photoNumber\<close> build the same tasks,
  whatever the thread identifiers.
\<close>

theorem names_determined:
  "((\<forall>s\<in>set students. \<forall>p\<in>set (case s_photos s of None \<Rightarrow> [] | Some ps \<Rightarrow> ps).
        p_photoNumber p \<noteq> None)
      \<longrightarrow> build_tasks parse y t1 base students = build_tasks parse y t2 base students)
   \<and> (p_photoNumber p = Some n \<longrightarrow> photo_filename t1 p u = str_int n @ url_ext u)
   \<and> (p_photoNumber p = None \<longrightarrow> photo_filename t1 p u = str_int t1 @ url_ext u)
   \<and> (s_dob s = None \<or> s_dob s = Some []
      \<longrightarrow> student_folder_of parse y1 s = student_folder_of parse y2 s)
   \<and> student_folder_of parse y s =
       student_folder_name (Some (or_str (s_firstName s) ''unknown''))
         (student_age parse y (s_dob s)) (or_int (s_grade s) 0) (or_str (s_section s) ''A'')
         (or_str (s_bloodGroup s) ''NA'') (or_str (s_studentId s) (str_opt (s_id s)))"
proof (intro conjI impI)
  assume "\<forall>s\<in>set students. \<forall>p\<in>set (case s_photos s of None \<Rightarrow> [] | Some ps \<Rightarrow> ps).
        p_photoNumber p \<noteq> None"
  then show "build_tasks parse y t1 base students = build_tasks parse y t2 base students"
    by (rule build_tasks_numbered)
next
  assume "p_photoNumber p = Some n"
  then show "photo_filename t1 p u = str_int n @ url_ext u"
    by (simp add: photo_filename_def)
next
  assume "p_photoNumber p = None"
  then show "photo_filename t1 p u = str_int t1 @ url_ext u"
    by (simp add: photo_filename_def)
next
  assume "s_dob s = None \<or> s_dob s = Some []"
  then show "student_folder_of parse y1 s = student_folder_of parse y2 s"
    by (rule student_folder_no_dob)
next
  show "student_folder_of parse y s =
       student_folder_name (Some (or_str (s_firstName s) ''unknown''))
         (student_age parse y (s_dob s)) (or_int (s_grade s) 0) (or_str (s_section s) ''A'')
         (or_str (s_bloodGroup s) ''NA'') (or_str (s_studentId s) (str_opt (s_id s)))"
    by (simp add: student_folder_of_def)
qed

theorem names_determined_witness:
  "build_tasks iso_date_year 2024 1 [''downloads'', ''S'', ''Students'']
      [\<lparr>s_firstName = Some ''Jane Doe'', s_dob = None, s_grade = Some 5,
         s_section = Some ''B'', s_bloodGroup = Some ''O+'', s_studentId = Some ''S123'',
         s_id = None,
         s_photos = Some [\<lparr>p_photoPath = None, p_secure_url = None,
                             p_url = Some ''http://h/a.png'', p_photoNumber = Some 3\<rparr>]\<rparr>]
     = build_tasks iso_date_year 2024 2 [''downloads'', ''S'', ''Students'']
      [\<lparr>s_firstName = Some ''Jane Doe'', s_dob = None, s_grade = Some 5,
         s_section = Some ''B'', s_bloodGroup = Some ''O+'', s_studentId = Some ''S123'',
         s_id = None,
         s_photos = Some [\<lparr>p_photoPath = None, p_secure_url = None,
                             p_url = Some ''http://h/a.png'', p_photoNumber = Some 3\<rparr>]\<rparr>]
   \<and> photo_filename 1 \<lparr>p_photoPath = None, p_secure_url = None,
          p_url = Some ''http://h/a.png'', p_photoNumber = Some 3\<rparr> ''http://h/a.png''
       = str_int 3 @ url_ext ''http://h/a.png''
   \<and> photo_filename 1 \<lparr>p_photoPath = None, p_secure_url = None,
          p_url = Some ''http://h/a.png'', p_photoNumber = None\<rparr> ''http://h/a.png''
       = str_int 1 @ url_ext ''http://h/a.png''
   \<and> student_folder_of iso_date_year 2024
        \<lparr>s_firstName = Some ''Jane Doe'', s_dob = None, s_grade = Some 5,
           s_section = Some ''B'', s_bloodGroup = Some ''O+'', s_studentId = Some ''S123'',
           s_id = None, s_photos = None\<rparr>
       = student_folder_of iso_date_year 2025
        \<lparr>s_firstName = Some ''Jane Doe'', s_dob = None, s_grade = Some 5,
           s_section = Some ''B'', s_bloodGroup = Some ''O+'', s_studentId = Some ''S123'',
           s_id = None, s_photos = None\<rparr>"
  using names_determined
    [where students = "[\<lparr>s_firstName = Some ''Jane Doe'', s_dob = None, s_grade = Some 5,
         s_section = Some ''B'', s_bloodGroup = Some ''O+'', s_studentId = Some ''S123'',
         s_id = None,
         s_photos = Some [\<lparr>p_photoPath = None, p_secure_url = None,
                             p_url = Some ''http://h/a.png'', p_photoNumber = Some 3\<rparr>]\<rparr>]"
      and parse = iso_date_year and y = 2024 and ?t1.0 = 1 and ?t2.0 = 2
      and base = "[''downloads'', ''S'', ''Students'']"
      and p = "\<lparr>p_photoPath = None, p_secure_url = None,
          p_url = Some ''http://h/a.png'', p_photoNumber = Some 3\<rparr>"
      and n = 3 and u = "''http://h/a.png''"
      and s = "\<lparr>s_firstName = Some ''Jane Doe'', s_dob = None, s_grade = Some 5,
           s_section = Some ''B'', s_bloodGroup = Some ''O+'', s_studentId = Some ''S123'',
           s_id = None, s_photos = None\<rparr>"
      and ?y1.0 = 2024 and ?y2.0 = 2025]
    names_determined
    [where p = "\<lparr>p_photoPath = None, p_secure_url = None,
          p_url = Some ''http://h/a.png'', p_photoNumber = None\<rparr>"
      and ?t1.0 = 1 and u = "''http://h/a.png''" and students = "[]" and s = "\<lparr>s_firstName = None, s_dob = None, s_grade = None,
           s_section = None, s_bloodGroup = None, s_studentId = None,
           s_id = None, s_photos = None\<rparr>"]
  by simp

section \<open>Claims about the pool and the driver\<close>





section \<open>Further properties of the naming scheme and the task builder\<close>

text \<open>
  The result of \<open>sanitize_school_name\<close> holds only ASCII letters, digits and
  underscores, for every input.
\<close>

theorem sanitize_school_name_chars:
  "list_all (\<lambda>c. is_ascii_alnum c \<or> c = CHR ''_'') (sanitize_school_name name)"
proof -
  have u: "list_all (\<lambda>c. is_ascii_alnum c \<or> c = CHR ''_'') ''unknown''"
    by (simp add: is_ascii_alnum_def)
  have f: "\<And>n. list_all (\<lambda>c. is_ascii_alnum c \<or> c = CHR ''_'')
      (py_strip (sub_ws_runs (filter (\<lambda>c. is_ascii_alnum c \<or> is_space c) n)))"
    by (intro py_strip_chars sub_ws_runs_chars) (simp add: list_all_iff)
  show ?thesis
    using u f by (auto simp: sanitize_school_name_def Let_def split: option.splits)
qed

text \<open>
  A school name that is missing, empty or made only of characters that are neither
  ASCII letters, digits nor whitespace is sanitised to \<open>unknown\<close>.
\<close>

theorem sanitize_school_name_fallback:
  "name = None \<or> name = Some [] \<or> (\<exists>n. name = Some n
       \<and> list_all (\<lambda>c. \<not> is_ascii_alnum c \<and> \<not> is_space c) n)
   \<longrightarrow> sanitize_school_name name = ''unknown''"
proof (intro impI)
  assume "name = None \<or> name = Some [] \<or> (\<exists>n. name = Some n
       \<and> list_all (\<lambda>c. \<not> is_ascii_alnum c \<and> \<not> is_space c) n)"
  moreover have "\<And>n. list_all (\<lambda>c. \<not> is_ascii_alnum c \<and> \<not> is_space c) n
      \<Longrightarrow> filter (\<lambda>c. is_ascii_alnum c \<or> is_space c) n = []"
    by (auto simp: list_all_iff filter_empty_conv)
  ultimately show "sanitize_school_name name = ''unknown''"
    by (auto simp: sanitize_school_name_def Let_def py_strip_def)
qed

theorem sanitize_school_name_fallback_witness:
  "sanitize_school_name (Some ''!?-.'') = ''unknown'' \<and> sanitize_school_name None = ''unknown''"
proof -
  have "list_all (\<lambda>c. \<not> is_ascii_alnum c \<and> \<not> is_space c) ''!?-.''"
    by (simp add: is_ascii_alnum_def is_space_def)
  then show ?thesis
    using sanitize_school_name_fallback [of "Some ''!?-.''"]
      sanitize_school_name_fallback [of None] by blast
qed

text \<open>The example of the specification: punctuation goes, blanks become underscores.\<close>

theorem sanitize_school_name_example:
  "sanitize_school_name (Some ''St. Mary's School!'') = ''St_Marys_School''"
  by code_simp

text \<open>
  A school name that is not empty and holds whitespace only is sanitised to a single
  underscore: the run of whitespace is replaced before \<open>strip()\<close> is called.
\<close>

theorem sanitize_school_name_whitespace:
  "n \<noteq> [] \<and> list_all is_space n \<longrightarrow> sanitize_school_name (Some n) = ''_''"
proof (intro impI)
  assume a: "n \<noteq> [] \<and> list_all is_space n"
  then obtain c cs where n: "n = c # cs" by (cases n) auto
  have sp: "is_space c" "\<forall>x\<in>set cs. is_space x" using a n by (auto simp: list_all_iff)
  have f: "filter (\<lambda>c. is_ascii_alnum c \<or> is_space c) n = n"
    using a by (auto simp: list_all_iff filter_id_conv)
  have d: "dropWhile is_space cs = []" using sp(2) by simp
  have "sub_ws_runs n = ''_''" by (simp add: n sp(1) d)
  moreover have "py_strip ''_'' = ''_''" by (simp add: py_strip_def is_space_def)
  ultimately show "sanitize_school_name (Some n) = ''_''"
    using a f by (simp add: sanitize_school_name_def)
qed

theorem sanitize_school_name_whitespace_witness:
  "sanitize_school_name (Some ''  '') = ''_''"
proof -
  have "''  '' \<noteq> [] \<and> list_all is_space ''  ''"
    by (simp add: is_space_def)
  then show ?thesis
    using sanitize_school_name_whitespace [of "''  ''"] by blast
qed

text \<open>
  When the task builder returns a task list, it has created one folder per student, in
  order, whether or not the student has a photo to download.
\<close>

theorem build_tasks_folders:
  "fst (build_tasks parse y thread_ident base students) = Inr tasks
   \<longrightarrow> snd (build_tasks parse y thread_ident base students)
       = map (\<lambda>s. Mkdir (base @ [projr (student_folder_of parse y s)])) students"
proof (induction students arbitrary: tasks)
  case Nil
  show ?case by simp
next
  case (Cons s ss)
  then show ?case
    by (auto simp: Let_def split: sum.splits prod.splits)
qed

theorem build_tasks_folders_witness:
  "snd (build_tasks iso_date_year 2024 77 [''downloads'', ''S'', ''Students'']
      [\<lparr>s_firstName = Some ''Jane Doe'', s_dob = None, s_grade = None,
         s_section = None, s_bloodGroup = None, s_studentId = None,
         s_id = None, s_photos = None\<rparr>])
     = map (\<lambda>s. Mkdir ([''downloads'', ''S'', ''Students'']
                        @ [projr (student_folder_of iso_date_year 2024 s)]))
         [\<lparr>s_firstName = Some ''Jane Doe'', s_dob = None, s_grade = None,
            s_section = None, s_bloodGroup = None, s_studentId = None,
            s_id = None, s_photos = None\<rparr>]"
proof -
  have "fst (build_tasks iso_date_year 2024 77 [''downloads'', ''S'', ''Students'']
      [\<lparr>s_firstName = Some ''Jane Doe'', s_dob = None, s_grade = None,
         s_section = None, s_bloodGroup = None, s_studentId = None,
         s_id = None, s_photos = None\<rparr>]) = Inr []"
    by code_simp
  then show ?thesis
    by (rule build_tasks_folders [THEN mp])
qed

end
